theory Spec2Isabelle
  imports Main
begin

section \<open>Data model\<close>

text \<open>
  The correlation step \<^verbatim>\<open>mergeJsonForD3(verilogData, sdfData)\<close> of
  \<^verbatim>\<open>src/backend/src/mergeVerilogSdf.js\<close> works on two parsed documents. Their
  structure (modules, instances, connections, timing records) is fixed, so it is modelled
  by records; the payloads the function only copies or inspects dynamically
  (\<^verbatim>\<open>delays\<close>, \<^verbatim>\<open>timingChecks\<close>, a connection's \<^verbatim>\<open>delay\<close>) are JSON values.
  Numbers are never computed with, so their type \<open>'n\<close> is left open. Strings are lists of
  8-bit characters (code units below 256).

  A property that the code tests for presence is an \<open>option\<close>: \<open>None\<close> is JavaScript's
  \<^verbatim>\<open>undefined\<close> (the property is missing). Reading such a property, testing its truth
  and serialising it all treat a missing property and one holding \<^verbatim>\<open>undefined\<close>
  alike, so an assignment of \<^verbatim>\<open>undefined\<close> is modelled by \<open>None\<close> too.
\<close>

datatype 'n json =
    JNull
  | JBool bool
  | JNum 'n
  | JStr string
  | JArr "'n json list"
  | JObj "(string \<times> 'n json) list"

text \<open>The only exception the function can raise on these types.\<close>

datatype error = TypeError

record 'n connection =
  port :: string
  net :: string
  delay :: "'n json option"

record 'n timing_record =
  instanceName :: "string option"
  cellType :: string
  delays :: "'n json option"
  timingChecks :: "'n json option"

text \<open>
  \<^verbatim>\<open>sdfData.instances\<close>: \<open>None\<close> when the property is missing or not an array; an
  entry of the array is \<open>None\<close> when it is \<^verbatim>\<open>null\<close>.
\<close>

record 'n timing_model =
  instances :: "'n timing_record option list option"

record 'n cell_instance =
  name :: "string option"
  type :: string
  connections :: "'n connection list option"
  delays :: "'n json option"
  timingChecks :: "'n json option"

text \<open>
  \<^verbatim>\<open>module.instances\<close> and \<^verbatim>\<open>instance.connections\<close> are arrays, or \<open>None\<close> when the
  property is missing.
\<close>

record 'n module =
  ports :: "'n json list"
  instances :: "'n cell_instance list option"

text \<open>
  \<^verbatim>\<open>verilogData.modules\<close> is an object from module names to modules;
  \<^verbatim>\<open>Object.values\<close> walks it in order, so it is an association list.
\<close>

record 'n netlist =
  modules :: "(string \<times> 'n module) list"

section \<open>Name normalisation\<close>

text \<open>
  \<^verbatim>\<open>String.prototype.trim\<close> removes white space and line terminators from both ends.
  Among the code units below 256 these are TAB, LF, VT, FF, CR, SPACE and NBSP.
\<close>

definition isWhiteSpace :: "char \<Rightarrow> bool" where
  "isWhiteSpace c \<longleftrightarrow>
     c \<in> {CHR 0x09, CHR 0x0A, CHR 0x0B, CHR 0x0C, CHR 0x0D, CHR 0x20, CHR 0xA0}"

definition trim :: "string \<Rightarrow> string" where
  "trim s = rev (dropWhile isWhiteSpace (rev (dropWhile isWhiteSpace s)))"

section \<open>The correlation lookup\<close>

text \<open>
  Lines 6 to 15: \<^verbatim>\<open>if (inst && inst.instanceName)\<close> lets a record in only when it is
  not \<^verbatim>\<open>null\<close> and its name is a non-empty string; \<^verbatim>\<open>Map.set\<close> overwrites.
\<close>

fun addInstance ::
  "(string \<rightharpoonup> 'n timing_record) \<Rightarrow> 'n timing_record option \<Rightarrow> (string \<rightharpoonup> 'n timing_record)"
where
  "addInstance m None = m"
| "addInstance m (Some inst) =
     (case instanceName inst of
        None \<Rightarrow> m
      | Some n \<Rightarrow> if n = [] then m else m(trim n \<mapsto> inst))"

definition sdfInstancesMap :: "'n timing_model \<Rightarrow> (string \<rightharpoonup> 'n timing_record)" where
  "sdfInstancesMap sdfData =
     (case timing_model.instances sdfData of
        None \<Rightarrow> Map.empty
      | Some insts \<Rightarrow> foldl addInstance Map.empty insts)"

section \<open>Annotating an instance\<close>

text \<open>
  \<^verbatim>\<open>sdfInstance.delays[0].delay\<close>: reading a property of \<^verbatim>\<open>null\<close> throws; an object
  gives the property or \<^verbatim>\<open>undefined\<close>; a number, string, boolean or array has no
  property of that name. The keys of an object are distinct.
\<close>

fun getDelay :: "'n json \<Rightarrow> error + 'n json option" where
  "getDelay JNull = Inl TypeError"
| "getDelay (JObj kvs) = Inr (map_of kvs ''delay'')"
| "getDelay (JBool b) = Inr None"
| "getDelay (JNum x) = Inr None"
| "getDelay (JStr s) = Inr None"
| "getDelay (JArr xs) = Inr None"

text \<open>\<^verbatim>\<open>Array.prototype.forEach\<close> with a body that updates its element or throws.\<close>

fun forEach :: "('a \<Rightarrow> error + 'a) \<Rightarrow> 'a list \<Rightarrow> error + 'a list" where
  "forEach f [] = Inr []"
| "forEach f (x # xs) =
     (case f x of
        Inl e \<Rightarrow> Inl e
      | Inr y \<Rightarrow> (case forEach f xs of Inl e \<Rightarrow> Inl e | Inr ys \<Rightarrow> Inr (y # ys)))"

text \<open>Lines 42 to 54, the body of the loop over \<^verbatim>\<open>instance.connections\<close>.\<close>

definition annotateConnection ::
  "'n timing_record \<Rightarrow> 'n connection \<Rightarrow> error + 'n connection"
where
  "annotateConnection sdfInstance conn =
     (case timing_record.delays sdfInstance of
        Some (JArr ds) \<Rightarrow>
          (case ds of
             [] \<Rightarrow> Inr conn
           | d # _ \<Rightarrow>
               (case getDelay d of
                  Inl e \<Rightarrow> Inl e
                | Inr v \<Rightarrow> Inr (conn\<lparr>delay := v\<rparr>)))
      | Some (JNum x) \<Rightarrow> Inr (conn\<lparr>delay := Some (JNum x)\<rparr>)
      | _ \<Rightarrow> Inr conn)"

text \<open>
  Lines 20 to 57, the body of the loop over \<^verbatim>\<open>module.instances\<close>. Every value of the
  lookup is a record object, so \<^verbatim>\<open>if (sdfInstance)\<close> asks whether the key was found.
\<close>

definition mergeInstance ::
  "(string \<rightharpoonup> 'n timing_record) \<Rightarrow> 'n cell_instance \<Rightarrow> error + 'n cell_instance"
where
  "mergeInstance sdfMap inst =
     (case cell_instance.name inst of
        None \<Rightarrow> Inr inst
      | Some nm \<Rightarrow>
          if nm = [] then Inr inst
          else
            (case sdfMap (trim nm) of
               None \<Rightarrow> Inr inst
             | Some sdfInstance \<Rightarrow>
                 if cellType sdfInstance = ''DFF'' then
                   Inr (inst\<lparr>cell_instance.delays := timing_record.delays sdfInstance,
                             cell_instance.timingChecks := timing_record.timingChecks sdfInstance\<rparr>)
                 else if cellType sdfInstance = ''LUT_K'' then
                   Inr (inst\<lparr>cell_instance.delays := timing_record.delays sdfInstance\<rparr>)
                 else if type inst = ''fpga_interconnect'' then
                   (case connections inst of
                      None \<Rightarrow> Inr inst
                    | Some cs \<Rightarrow>
                        (case forEach (annotateConnection sdfInstance) cs of
                           Inl e \<Rightarrow> Inl e
                         | Inr cs' \<Rightarrow> Inr (inst\<lparr>connections := Some cs'\<rparr>)))
                 else Inr inst))"

text \<open>Lines 18 to 59, the body of the loop over the modules.\<close>

definition mergeModule ::
  "(string \<rightharpoonup> 'n timing_record) \<Rightarrow> 'n module \<Rightarrow> error + 'n module"
where
  "mergeModule sdfMap m =
     (case module.instances m of
        None \<Rightarrow> Inr m
      | Some insts \<Rightarrow>
          (case forEach (mergeInstance sdfMap) insts of
             Inl e \<Rightarrow> Inl e
           | Inr insts' \<Rightarrow> Inr (m\<lparr>module.instances := Some insts'\<rparr>)))"

definition mergeEntry ::
  "(string \<rightharpoonup> 'n timing_record) \<Rightarrow> string \<times> 'n module \<Rightarrow> error + string \<times> 'n module"
where
  "mergeEntry sdfMap km =
     (case mergeModule sdfMap (snd km) of
        Inl e \<Rightarrow> Inl e
      | Inr m' \<Rightarrow> Inr (fst km, m'))"

text \<open>
  The whole function. \<^verbatim>\<open>JSON.parse(JSON.stringify(verilogData))\<close> rebuilds the document
  from its own text, so as a value \<^verbatim>\<open>finalJSON\<close> is \<^verbatim>\<open>verilogData\<close>. The loop of lines
  62 to 71 only counts into the local \<^verbatim>\<open>delaysCount\<close>, which is never read.
\<close>

definition mergeJsonForD3 :: "'n netlist \<Rightarrow> 'n timing_model \<Rightarrow> error + 'n netlist" where
  "mergeJsonForD3 verilogData sdfData =
     (let finalJSON = verilogData;
          sdfMap = sdfInstancesMap sdfData
      in case forEach (mergeEntry sdfMap) (modules finalJSON) of
           Inl e \<Rightarrow> Inl e
         | Inr ms \<Rightarrow> Inr (finalJSON\<lparr>modules := ms\<rparr>))"

text \<open>The \<open>j\<close>-th instance of the \<open>i\<close>-th module of a netlist, when there is one.\<close>

definition instanceAt :: "'n netlist \<Rightarrow> nat \<Rightarrow> nat \<Rightarrow> 'n cell_instance option" where
  "instanceAt v i j =
     (if i < length (modules v) then
        (case module.instances (snd (modules v ! i)) of
           None \<Rightarrow> None
         | Some insts \<Rightarrow> if j < length insts then Some (insts ! j) else None)
      else None)"

text \<open>An instance that carries no timing annotation at all.\<close>

definition unannotated :: "'n cell_instance \<Rightarrow> bool" where
  "unannotated inst \<longleftrightarrow>
     cell_instance.delays inst = None \<and> cell_instance.timingChecks inst = None \<and>
     (case connections inst of None \<Rightarrow> True | Some cs \<Rightarrow> list_all (\<lambda>c. delay c = None) cs)"

text \<open>
  What the interconnect rule may do to an instance: nothing of it changes but its
  connections, and every connection changes at most in its \<^verbatim>\<open>delay\<close>, which is what
  the loop body makes of the timing record.
\<close>

definition connectionsAnnotated ::
  "'n timing_record \<Rightarrow> 'n cell_instance \<Rightarrow> 'n cell_instance \<Rightarrow> bool"
where
  "connectionsAnnotated sdfInstance inst inst' \<longleftrightarrow>
     inst' = inst\<lparr>connections := connections inst'\<rparr> \<and>
     (case connections inst of
        None \<Rightarrow> connections inst' = None
      | Some cs \<Rightarrow>
          (case connections inst' of
             None \<Rightarrow> False
           | Some cs' \<Rightarrow>
               list_all2
                 (\<lambda>c c'. c' = c\<lparr>delay := delay c'\<rparr> \<and> annotateConnection sdfInstance c = Inr c')
                 cs cs'))"

text \<open>
  The key under which lines 9 to 12 enter an entry of \<^verbatim>\<open>sdfData.instances\<close>, when they
  enter it at all.
\<close>

definition normalizedName :: "'n timing_record option \<Rightarrow> string option" where
  "normalizedName x =
     (case x of
        None \<Rightarrow> None
      | Some inst \<Rightarrow>
          (case instanceName inst of
             None \<Rightarrow> None
           | Some n \<Rightarrow> if n = [] then None else Some (trim n)))"

text \<open>Two timing records that differ at most in their \<^verbatim>\<open>instanceName\<close>.\<close>

definition samePayload :: "'n timing_record \<Rightarrow> 'n timing_record \<Rightarrow> bool" where
  "samePayload a b \<longleftrightarrow>
     cellType a = cellType b \<and> timing_record.delays a = timing_record.delays b \<and>
     timing_record.timingChecks a = timing_record.timingChecks b"

section \<open>A sample design\<close>

text \<open>
  One module with a flip-flop, a lookup table, three routing instances, an adder, an
  instance the timing file does not know and two instances without a name; and a timing
  file for it, with padded names, a \<^verbatim>\<open>null\<close> entry and two records without a name.
\<close>

definition ex_checks :: "int json" where
  "ex_checks =
     JArr [JObj [(''type'', JStr ''setup''), (''value'', JNum 1)],
           JObj [(''type'', JStr ''hold''), (''value'', JNum 2)]]"

definition ex_conn :: "string \<Rightarrow> string \<Rightarrow> int connection" where
  "ex_conn p n = \<lparr>port = p, net = n, delay = None\<rparr>"

definition ex_cell :: "string option \<Rightarrow> string \<Rightarrow> int connection list \<Rightarrow> int cell_instance" where
  "ex_cell nm ty cs =
     \<lparr>name = nm, type = ty, connections = Some cs, delays = None, timingChecks = None\<rparr>"

definition ex_record :: "string option \<Rightarrow> string \<Rightarrow> int json option \<Rightarrow> int timing_record" where
  "ex_record nm ct d = \<lparr>instanceName = nm, cellType = ct, delays = d, timingChecks = Some ex_checks\<rparr>"

definition ex_route_conns :: "int connection list" where
  "ex_route_conns = [ex_conn ''datain'' ''n1'', ex_conn ''dataout'' ''n2'', ex_conn ''aux'' ''n3'']"

definition ex_dff :: "int cell_instance" where
  "ex_dff = ex_cell (Some ''dff_1'') ''DFF'' [ex_conn ''D'' ''n1'', ex_conn ''Q'' ''n2'']"

definition ex_lut :: "int cell_instance" where
  "ex_lut = ex_cell (Some '' lut_1'') ''LUT_K'' [ex_conn ''in'' ''n2'', ex_conn ''out'' ''n3'']"

definition ex_route1 :: "int cell_instance" where
  "ex_route1 = ex_cell (Some ''route_1'') ''fpga_interconnect'' ex_route_conns"

definition ex_route2 :: "int cell_instance" where
  "ex_route2 = ex_cell (Some ''route_2'') ''fpga_interconnect'' ex_route_conns"

definition ex_route3 :: "int cell_instance" where
  "ex_route3 = ex_cell (Some ''route_3'') ''fpga_interconnect'' ex_route_conns"

definition ex_adder :: "int cell_instance" where
  "ex_adder = ex_cell (Some ''add_1'') ''adder'' [ex_conn ''a'' ''n1'']"

definition ex_ghost :: "int cell_instance" where
  "ex_ghost = ex_cell (Some ''ghost_1'') ''DFF'' [ex_conn ''D'' ''n3'']"

definition ex_anonymous :: "int cell_instance" where
  "ex_anonymous = ex_cell None ''LUT_K'' [ex_conn ''in'' ''n3'']"

definition ex_unnamed :: "int cell_instance" where
  "ex_unnamed = ex_cell (Some []) ''DFF'' [ex_conn ''D'' ''n1'']"

definition ex_netlist :: "int netlist" where
  "ex_netlist =
     \<lparr>modules =
        [(''top'',
          \<lparr>ports = [JStr ''clk''],
           instances =
             Some [ex_dff, ex_lut, ex_route1, ex_route2, ex_route3, ex_adder, ex_ghost,
                   ex_anonymous, ex_unnamed]\<rparr>)]\<rparr>"

definition ex_dff_record :: "int timing_record" where
  "ex_dff_record = ex_record (Some ''  dff_1 '') ''DFF'' (Some (JObj [(''value'', JNum 3)]))"

definition ex_lut_record :: "int timing_record" where
  "ex_lut_record = ex_record (Some ''lut_1'') ''LUT_K'' (Some (JArr [JObj [(''delay'', JNum 4)]]))"

definition ex_route1_record :: "int timing_record" where
  "ex_route1_record =
     ex_record (Some ''route_1'') ''fpga_interconnect''
       (Some (JArr [JObj [(''delay'', JNum 5)], JObj [(''delay'', JNum 9)]]))"

definition ex_route2_record :: "int timing_record" where
  "ex_route2_record = ex_record (Some ''route_2'') ''fpga_interconnect'' (Some (JNum 7))"

definition ex_route3_record :: "int timing_record" where
  "ex_route3_record = ex_record (Some ''route_3'') ''fpga_interconnect'' (Some (JArr []))"

definition ex_adder_record :: "int timing_record" where
  "ex_adder_record = ex_record (Some ''add_1'') ''adder'' (Some (JNum 8))"

definition ex_anonymous_record :: "int timing_record" where
  "ex_anonymous_record = ex_record None ''DFF'' (Some (JNum 1))"

definition ex_unnamed_record :: "int timing_record" where
  "ex_unnamed_record = ex_record (Some []) ''DFF'' (Some (JNum 2))"

definition ex_timing :: "int timing_model" where
  "ex_timing =
     \<lparr>timing_model.instances =
        Some [Some ex_dff_record, None, Some ex_lut_record, Some ex_route1_record,
              Some ex_route2_record, Some ex_route3_record, Some ex_adder_record,
              Some ex_anonymous_record, Some ex_unnamed_record]\<rparr>"

text \<open>
  A second design: two routing instances whose timing records carry the cell types of a
  flip-flop and of a lookup table.
\<close>

definition ex_clash1 :: "int cell_instance" where
  "ex_clash1 = ex_cell (Some ''route_8'') ''fpga_interconnect'' ex_route_conns"

definition ex_clash2 :: "int cell_instance" where
  "ex_clash2 = ex_cell (Some ''route_9'') ''fpga_interconnect'' ex_route_conns"

definition ex_clash1_record :: "int timing_record" where
  "ex_clash1_record = ex_record (Some ''route_8'') ''DFF'' (Some (JNum 6))"

definition ex_clash2_record :: "int timing_record" where
  "ex_clash2_record =
     ex_record (Some ''route_9'') ''LUT_K''
       (Some (JArr [JObj [(''delay'', JNum 5)], JObj [(''delay'', JNum 9)]]))"

definition ex_clash_netlist :: "int netlist" where
  "ex_clash_netlist =
     \<lparr>modules = [(''top'', \<lparr>ports = [], instances = Some [ex_clash1, ex_clash2]\<rparr>)]\<rparr>"

definition ex_clash_timing :: "int timing_model" where
  "ex_clash_timing =
     \<lparr>timing_model.instances = Some [Some ex_clash1_record, Some ex_clash2_record]\<rparr>"

definition ex_clash_merged :: "int netlist" where
  "ex_clash_merged =
     \<lparr>modules =
        [(''top'',
          \<lparr>ports = [],
           instances =
             Some [ex_clash1\<lparr>cell_instance.delays := Some (JNum 6),
                             cell_instance.timingChecks := Some ex_checks\<rparr>,
                   ex_clash2\<lparr>cell_instance.delays :=
                     Some (JArr [JObj [(''delay'', JNum 5)], JObj [(''delay'', JNum 9)]])\<rparr>]\<rparr>)]\<rparr>"

text \<open>
  A third design: one instance whose name is a single space, and a timing file with one
  flip-flop record of a given name.
\<close>

definition ex_blank :: "int cell_instance" where
  "ex_blank = ex_cell (Some '' '') ''DFF'' [ex_conn ''D'' ''n1'']"

definition ex_blank_netlist :: "int netlist" where
  "ex_blank_netlist = \<lparr>modules = [(''top'', \<lparr>ports = [], instances = Some [ex_blank]\<rparr>)]\<rparr>"

definition ex_single_timing :: "string \<Rightarrow> int timing_model" where
  "ex_single_timing n =
     \<lparr>timing_model.instances = Some [Some (ex_record (Some n) ''DFF'' (Some (JNum 1)))]\<rparr>"

text \<open>A fourth design: the flip-flop of the first, and a timing file that names it twice.\<close>

definition ex_twice_netlist :: "int netlist" where
  "ex_twice_netlist = \<lparr>modules = [(''top'', \<lparr>ports = [], instances = Some [ex_dff]\<rparr>)]\<rparr>"

definition ex_early_record :: "int timing_record" where
  "ex_early_record = ex_record (Some ''dff_1 '') ''DFF'' (Some (JNum 1))"

definition ex_late_record :: "int timing_record" where
  "ex_late_record = ex_record (Some '' dff_1'') ''DFF'' (Some (JNum 2))"

definition ex_twice_timing :: "int timing_model" where
  "ex_twice_timing =
     \<lparr>timing_model.instances =
        Some [Some ex_early_record, Some ex_lut_record, Some ex_late_record, None]\<rparr>"

section \<open>The same function on a store of objects\<close>














subsection \<open>The clone through JSON\<close>






subsection \<open>The lookup\<close>




subsection \<open>The loops that write\<close>





subsection \<open>The final count\<close>






subsection \<open>The whole function\<close>


subsection \<open>What is new in a store\<close>





subsection \<open>A sample store\<close>



section \<open>Loops and positions\<close>

lemma forEach_Inr_iff:
  "forEach f xs = Inr ys \<longleftrightarrow>
     length ys = length xs \<and> (\<forall>i < length xs. f (xs ! i) = Inr (ys ! i))"
proof (induction xs arbitrary: ys)
  case Nil
  then show ?case by auto
next
  case (Cons x xs)
  show ?case
  proof (cases ys)
    case Nil
    then show ?thesis by (auto split: sum.splits)
  next
    case (Cons y ys')
    have "(\<forall>i < Suc (length xs). f ((x # xs) ! i) = Inr ((y # ys') ! i)) \<longleftrightarrow>
          f x = Inr y \<and> (\<forall>i < length xs. f (xs ! i) = Inr (ys' ! i))"
      by (auto simp: less_Suc_eq_0_disj)
    with Cons Cons.IH [of ys'] show ?thesis
      by (auto split: sum.splits)
  qed
qed

lemma forEach_Inl:
  "forEach f xs = Inl e \<Longrightarrow> \<exists>i < length xs. f (xs ! i) = Inl e"
proof (induction xs)
  case Nil
  then show ?case by simp
next
  case (Cons x xs)
  show ?case
  proof (cases "f x")
    case (Inl e')
    with Cons.prems have "f ((x # xs) ! 0) = Inl e" by simp
    then show ?thesis by blast
  next
    case (Inr y)
    with Cons.prems have "forEach f xs = Inl e" by (simp split: sum.splits)
    from Cons.IH [OF this] obtain i where "i < length xs" "f (xs ! i) = Inl e" by blast
    then have "Suc i < length (x # xs) \<and> f ((x # xs) ! Suc i) = Inl e" by simp
    then show ?thesis by blast
  qed
qed

lemma forEach_map:
  "(\<And>x. x \<in> set xs \<Longrightarrow> f x = Inr (g x)) \<Longrightarrow> forEach f xs = Inr (map g xs)"
  by (induction xs) auto

lemma merge_instanceAt:
  assumes "mergeJsonForD3 v s = Inr r" and "instanceAt v i j = Some inst"
  shows "\<exists>inst'. instanceAt r i j = Some inst' \<and>
                 mergeInstance (sdfInstancesMap s) inst = Inr inst'"
proof -
  let ?M = "sdfInstancesMap s"
  from assms(1) obtain ms where ms: "forEach (mergeEntry ?M) (modules v) = Inr ms"
    and r: "r = v\<lparr>modules := ms\<rparr>"
    by (auto simp: mergeJsonForD3_def Let_def split: sum.splits)
  from assms(2) obtain insts where i: "i < length (modules v)"
    and insts: "module.instances (snd (modules v ! i)) = Some insts"
    and j: "j < length insts" and inst: "inst = insts ! j"
    by (auto simp: instanceAt_def split: if_splits option.splits)
  from ms i have len: "length ms = length (modules v)"
    and mi: "mergeEntry ?M (modules v ! i) = Inr (ms ! i)"
    by (auto simp: forEach_Inr_iff)
  from mi insts have "\<exists>insts'. forEach (mergeInstance ?M) insts = Inr insts' \<and>
      ms ! i = (fst (modules v ! i), snd (modules v ! i)\<lparr>module.instances := Some insts'\<rparr>)"
    by (cases "forEach (mergeInstance ?M) insts")
       (auto simp: mergeEntry_def mergeModule_def)
  then obtain insts' where fe: "forEach (mergeInstance ?M) insts = Inr insts'"
    and eq: "ms ! i = (fst (modules v ! i), snd (modules v ! i)\<lparr>module.instances := Some insts'\<rparr>)"
    by blast
  from eq have msi: "module.instances (snd (ms ! i)) = Some insts'"
    by simp
  from fe j have "length insts' = length insts"
    and "mergeInstance ?M (insts ! j) = Inr (insts' ! j)"
    by (auto simp: forEach_Inr_iff)
  with i len msi j inst r show ?thesis
    by (simp add: instanceAt_def)
qed

lemma merge_Inl_instanceAt:
  assumes "mergeJsonForD3 v s = Inl e"
  shows "\<exists>i j inst. instanceAt v i j = Some inst \<and>
                     mergeInstance (sdfInstancesMap s) inst = Inl e"
proof -
  let ?M = "sdfInstancesMap s"
  from assms have "forEach (mergeEntry ?M) (modules v) = Inl e"
    by (auto simp: mergeJsonForD3_def Let_def split: sum.splits)
  from forEach_Inl [OF this] obtain i where i: "i < length (modules v)"
    and mi: "mergeEntry ?M (modules v ! i) = Inl e"
    by blast
  from mi have "\<exists>insts. module.instances (snd (modules v ! i)) = Some insts \<and>
                  forEach (mergeInstance ?M) insts = Inl e"
    by (cases "module.instances (snd (modules v ! i))")
       (auto simp: mergeEntry_def mergeModule_def split: sum.splits)
  then obtain insts where insts: "module.instances (snd (modules v ! i)) = Some insts"
    and fe: "forEach (mergeInstance ?M) insts = Inl e"
    by blast
  from forEach_Inl [OF fe] obtain j where j: "j < length insts"
    and "mergeInstance ?M (insts ! j) = Inl e"
    by blast
  moreover from i insts j have "instanceAt v i j = Some (insts ! j)"
    by (simp add: instanceAt_def)
  ultimately show ?thesis by blast
qed

text \<open>
  An instance whose own step returns normally is never the one that makes the whole
  merge throw, and it sits at its place in the result.
\<close>

lemma merge_at_step:
  assumes at: "instanceAt v i j = Some inst"
    and step: "mergeInstance (sdfInstancesMap s) inst = Inr inst'"
  shows "(\<forall>r. mergeJsonForD3 v s = Inr r \<longrightarrow> instanceAt r i j = Some inst') \<and>
         (\<forall>e. mergeJsonForD3 v s = Inl e \<longrightarrow>
              (\<exists>i' j' other. (i', j') \<noteq> (i, j) \<and> instanceAt v i' j' = Some other \<and>
                   mergeInstance (sdfInstancesMap s) other = Inl e))"
proof (intro conjI allI impI)
  fix r assume "mergeJsonForD3 v s = Inr r"
  from merge_instanceAt [OF this at] step show "instanceAt r i j = Some inst'"
    by auto
next
  fix e assume "mergeJsonForD3 v s = Inl e"
  from merge_Inl_instanceAt [OF this] obtain i' j' other
    where o: "instanceAt v i' j' = Some other"
      "mergeInstance (sdfInstancesMap s) other = Inl e"
    by blast
  with at step have "(i', j') \<noteq> (i, j)" by auto
  with o show "\<exists>i' j' other. (i', j') \<noteq> (i, j) \<and> instanceAt v i' j' = Some other \<and>
      mergeInstance (sdfInstancesMap s) other = Inl e"
    by blast
qed

section \<open>The interconnect rule\<close>

lemma annotateConnection_frame:
  "annotateConnection sdfInstance c = Inr c' \<Longrightarrow> c' = c\<lparr>delay := delay c'\<rparr>"
  by (auto simp: annotateConnection_def split: option.splits json.splits list.splits sum.splits)

lemma annotateConnection_total:
  assumes "\<forall>ds. timing_record.delays sdfInstance \<noteq> Some (JArr (JNull # ds))"
  shows "\<exists>c'. annotateConnection sdfInstance c = Inr c'"
proof (cases "timing_record.delays sdfInstance")
  case None
  then show ?thesis by (simp add: annotateConnection_def)
next
  case (Some d)
  show ?thesis
  proof (cases d)
    case (JArr ds)
    show ?thesis
    proof (cases ds)
      case Nil
      with Some JArr show ?thesis by (simp add: annotateConnection_def)
    next
      case (Cons x xs)
      with assms Some JArr have "x \<noteq> JNull" by auto
      then obtain dv where "getDelay x = Inr dv" by (cases x) auto
      with Some JArr Cons show ?thesis by (simp add: annotateConnection_def)
    qed
  qed (use Some in \<open>simp_all add: annotateConnection_def\<close>)
qed

lemma forEach_total:
  "(\<And>x. x \<in> set xs \<Longrightarrow> \<exists>y. f x = Inr y) \<Longrightarrow> \<exists>ys. forEach f xs = Inr ys"
proof (induction xs)
  case Nil
  then show ?case by simp
next
  case (Cons x xs)
  then obtain y ys where "f x = Inr y" "forEach f xs = Inr ys" by fastforce
  then show ?case by simp
qed

lemma forEach_list_all2:
  "forEach f xs = Inr ys \<longleftrightarrow> list_all2 (\<lambda>x y. f x = Inr y) xs ys"
  by (auto simp: forEach_Inr_iff list_all2_conv_all_nth)

lemma interconnect_step:
  assumes "cell_instance.name inst = Some nm" and "nm \<noteq> []"
    and "sdfMap (trim nm) = Some sdfInstance"
    and "type inst = ''fpga_interconnect''"
    and "cellType sdfInstance \<noteq> ''DFF''" and "cellType sdfInstance \<noteq> ''LUT_K''"
  shows "mergeInstance sdfMap inst =
           (case connections inst of
              None \<Rightarrow> Inr inst
            | Some cs \<Rightarrow>
                (case forEach (annotateConnection sdfInstance) cs of
                   Inl e \<Rightarrow> Inl e
                 | Inr cs' \<Rightarrow> Inr (inst\<lparr>connections := Some cs'\<rparr>)))"
  using assms by (simp add: mergeInstance_def)

lemma interconnect_step_annotated:
  assumes "cell_instance.name inst = Some nm" and "nm \<noteq> []"
    and "sdfMap (trim nm) = Some sdfInstance"
    and "type inst = ''fpga_interconnect''"
    and "cellType sdfInstance \<noteq> ''DFF''" and "cellType sdfInstance \<noteq> ''LUT_K''"
    and "mergeInstance sdfMap inst = Inr inst'"
  shows "connectionsAnnotated sdfInstance inst inst'"
proof (cases "connections inst")
  case None
  with assms(7) interconnect_step [where sdfMap = sdfMap, OF assms(1-6)] show ?thesis
    by (simp add: connectionsAnnotated_def)
next
  case (Some cs)
  with assms(7) interconnect_step [where sdfMap = sdfMap, OF assms(1-6)] obtain cs'
    where fe: "forEach (annotateConnection sdfInstance) cs = Inr cs'"
      and inst': "inst' = inst\<lparr>connections := Some cs'\<rparr>"
    by (auto split: sum.splits)
  from fe have "list_all2 (\<lambda>c c'. annotateConnection sdfInstance c = Inr c') cs cs'"
    by (simp add: forEach_list_all2)
  then have "list_all2
      (\<lambda>c c'. c' = c\<lparr>delay := delay c'\<rparr> \<and> annotateConnection sdfInstance c = Inr c') cs cs'"
    by (rule list_all2_mono) (auto dest: annotateConnection_frame)
  with Some inst' show ?thesis
    by (simp add: connectionsAnnotated_def)
qed

lemma interconnect_step_total:
  assumes "cell_instance.name inst = Some nm" and "nm \<noteq> []"
    and "sdfMap (trim nm) = Some sdfInstance"
    and "type inst = ''fpga_interconnect''"
    and "cellType sdfInstance \<noteq> ''DFF''" and "cellType sdfInstance \<noteq> ''LUT_K''"
    and "\<forall>ds. timing_record.delays sdfInstance \<noteq> Some (JArr (JNull # ds))"
  shows "\<exists>inst'. mergeInstance sdfMap inst = Inr inst'"
proof (cases "connections inst")
  case None
  with interconnect_step [where sdfMap = sdfMap, OF assms(1-6)] show ?thesis by simp
next
  case (Some cs)
  from annotateConnection_total [OF assms(7)]
  obtain cs' where "forEach (annotateConnection sdfInstance) cs = Inr cs'"
    using forEach_total [of cs "annotateConnection sdfInstance"] by blast
  with Some interconnect_step [where sdfMap = sdfMap, OF assms(1-6)] show ?thesis by simp
qed

lemma annotateConnection_array:
  "timing_record.delays sdfInstance = Some (JArr (d # ds)) \<Longrightarrow> getDelay d = Inr dv \<Longrightarrow>
   annotateConnection sdfInstance c = Inr (c\<lparr>delay := dv\<rparr>)"
  by (simp add: annotateConnection_def)

lemma annotateConnection_number:
  "timing_record.delays sdfInstance = Some (JNum x) \<Longrightarrow>
   annotateConnection sdfInstance c = Inr (c\<lparr>delay := Some (JNum x)\<rparr>)"
  by (simp add: annotateConnection_def)

lemma annotateConnection_empty:
  "timing_record.delays sdfInstance = Some (JArr []) \<Longrightarrow>
   annotateConnection sdfInstance c = Inr c"
  by (simp add: annotateConnection_def)

section \<open>What the lookup holds\<close>

lemma foldl_addInstance_names:
  assumes "foldl addInstance m xs k = Some r"
  shows "m k = Some r \<or> (\<exists>n. instanceName r = Some n \<and> n \<noteq> [] \<and> trim n = k \<and> Some r \<in> set xs)"
  using assms
proof (induction xs arbitrary: m)
  case Nil
  then show ?case by simp
next
  case (Cons x xs)
  from Cons.IH [OF Cons.prems [simplified]]
  show ?case
  proof
    assume a: "addInstance m x k = Some r"
    show ?thesis
    proof (cases x)
      case None
      with a show ?thesis by simp
    next
      case (Some inst)
      with a show ?thesis
        by (cases "instanceName inst") (auto split: if_splits)
    qed
  qed auto
qed

lemma sdfInstancesMap_names:
  assumes "sdfInstancesMap s k = Some r"
  shows "\<exists>n. instanceName r = Some n \<and> n \<noteq> [] \<and> trim n = k"
proof (cases "timing_model.instances s")
  case None
  with assms show ?thesis by (simp add: sdfInstancesMap_def)
next
  case (Some xs)
  with assms have "foldl addInstance Map.empty xs k = Some r"
    by (simp add: sdfInstancesMap_def)
  from foldl_addInstance_names [OF this] show ?thesis by auto
qed

section \<open>The lookup, key by key\<close>

lemma addInstance_normalizedName:
  "normalizedName x = None \<Longrightarrow> addInstance m x = m"
  "normalizedName x = Some k \<Longrightarrow> addInstance m x = m(k \<mapsto> the x)"
  by (cases x; auto simp: normalizedName_def split: option.splits if_splits)+

lemma addInstance_upd_same:
  assumes "normalizedName x = Some k"
  shows "addInstance (m(k \<mapsto> a)) x = addInstance m x"
proof -
  have "addInstance (m(k \<mapsto> a)) x = m(k \<mapsto> a, k \<mapsto> the x)"
    using assms by (rule addInstance_normalizedName)
  also have "\<dots> = m(k \<mapsto> the x)"
    by (rule fun_upd_upd)
  also have "\<dots> = addInstance m x"
    using assms by (rule addInstance_normalizedName [symmetric])
  finally show ?thesis .
qed

lemma addInstance_upd_other:
  assumes "normalizedName x \<noteq> Some k"
  shows "addInstance (m(k \<mapsto> a)) x = (addInstance m x)(k \<mapsto> a)"
proof (cases "normalizedName x")
  case None
  then have "addInstance (m(k \<mapsto> a)) x = m(k \<mapsto> a)" "addInstance m x = m"
    by (rule addInstance_normalizedName)+
  then show ?thesis by (simp only:)
next
  case (Some k')
  with assms have "k' \<noteq> k" by simp
  then have "m(k \<mapsto> a, k' \<mapsto> the x) = m(k' \<mapsto> the x, k \<mapsto> a)"
    by (simp add: fun_upd_twist)
  moreover from Some have "addInstance (m(k \<mapsto> a)) x = m(k \<mapsto> a, k' \<mapsto> the x)"
    "addInstance m x = m(k' \<mapsto> the x)"
    by (rule addInstance_normalizedName)+
  ultimately show ?thesis by (simp only:)
qed

lemma foldl_addInstance_upd:
  "\<exists>x \<in> set xs. normalizedName x = Some k \<Longrightarrow>
   foldl addInstance (m(k \<mapsto> a)) xs = foldl addInstance m xs"
proof (induction xs arbitrary: m)
  case Nil
  then show ?case by simp
next
  case (Cons x xs)
  show ?case
  proof (cases "normalizedName x = Some k")
    case True
    then show ?thesis
      by (simp only: foldl_Cons addInstance_upd_same)
  next
    case False
    with Cons.prems have "\<exists>x \<in> set xs. normalizedName x = Some k"
      by auto
    from Cons.IH [OF this, of "addInstance m x"] show ?thesis
      by (simp only: foldl_Cons addInstance_upd_other [OF False])
  qed
qed

lemma foldl_addInstance_absent:
  "\<forall>x \<in> set xs. normalizedName x \<noteq> Some k \<Longrightarrow> foldl addInstance m xs k = m k"
proof (induction xs arbitrary: m)
  case Nil
  then show ?case by simp
next
  case (Cons x xs)
  then have IH: "foldl addInstance m' xs k = m' k" for m'
    by simp
  show ?case
  proof (cases "normalizedName x")
    case None
    then have "addInstance m x = m"
      by (rule addInstance_normalizedName)
    with IH [of m] show ?thesis
      by (simp del: addInstance.simps)
  next
    case (Some k')
    with Cons.prems have "k' \<noteq> k" by auto
    moreover from Some have "addInstance m x = m(k' \<mapsto> the x)"
      by (rule addInstance_normalizedName)
    ultimately show ?thesis
      using IH [of "m(k' \<mapsto> the x)"] by (simp del: addInstance.simps)
  qed
qed

lemma mergeInstance_key:
  assumes "cell_instance.name inst = Some nm" and "M (trim nm) = M' (trim nm)"
  shows "mergeInstance M inst = mergeInstance M' inst"
  using assms by (simp add: mergeInstance_def)

lemma foldl_addInstance_defined:
  "(\<exists>r. foldl addInstance m xs k = Some r) \<longleftrightarrow>
   (\<exists>r. m k = Some r) \<or> (\<exists>x \<in> set xs. normalizedName x = Some k)"
proof (induction xs arbitrary: m)
  case Nil
  then show ?case by simp
next
  case (Cons x xs)
  have step: "(\<exists>r. addInstance m x k = Some r) \<longleftrightarrow>
      (\<exists>r. m k = Some r) \<or> normalizedName x = Some k"
  proof (cases "normalizedName x")
    case None
    then have "addInstance m x k = m k"
      by (simp only: addInstance_normalizedName)
    with None show ?thesis by simp
  next
    case (Some k')
    then have "addInstance m x k = (m(k' \<mapsto> the x)) k"
      by (simp only: addInstance_normalizedName)
    with Some show ?thesis by auto
  qed
  have "(\<exists>r. foldl addInstance m (x # xs) k = Some r) \<longleftrightarrow>
      (\<exists>r. addInstance m x k = Some r) \<or> (\<exists>x \<in> set xs. normalizedName x = Some k)"
    using Cons.IH [of "addInstance m x"] by (simp only: foldl_Cons)
  with step show ?case by auto
qed

lemma sdfInstancesMap_matches:
  "(\<exists>r. sdfInstancesMap sd k = Some r) \<longleftrightarrow>
   (\<exists>xs x. timing_model.instances sd = Some xs \<and> x \<in> set xs \<and> normalizedName x = Some k)"
proof (cases "timing_model.instances sd")
  case None
  then show ?thesis by (simp add: sdfInstancesMap_def)
next
  case (Some xs)
  then have "sdfInstancesMap sd k = foldl addInstance Map.empty xs k"
    by (simp add: sdfInstancesMap_def)
  with Some foldl_addInstance_defined [of Map.empty xs k] show ?thesis
    by auto
qed

section \<open>Padded names\<close>

lemma trim_padded:
  assumes "\<forall>c \<in> set ws1. isWhiteSpace c" and "\<forall>c \<in> set ws2. isWhiteSpace c"
  shows "trim (ws1 @ n @ ws2) = trim n"
proof -
  from assms(1) have front: "dropWhile isWhiteSpace (ws1 @ n @ ws2) = dropWhile isWhiteSpace (n @ ws2)"
    by (simp add: dropWhile_append2)
  show ?thesis
  proof (cases "\<forall>c \<in> set n. isWhiteSpace c")
    case True
    with assms(2) have "dropWhile isWhiteSpace (n @ ws2) = []" "dropWhile isWhiteSpace n = []"
      by (auto simp: dropWhile_eq_Nil_conv)
    with front have "dropWhile isWhiteSpace (ws1 @ n @ ws2) = dropWhile isWhiteSpace n"
      by (simp only:)
    then show ?thesis by (simp only: trim_def)
  next
    case False
    then obtain c where "c \<in> set n" "\<not> isWhiteSpace c"
      by blast
    then have "dropWhile isWhiteSpace (n @ ws2) = dropWhile isWhiteSpace n @ ws2"
      by (rule dropWhile_append1)
    moreover from assms(2)
    have "dropWhile isWhiteSpace (rev ws2 @ rev (dropWhile isWhiteSpace n)) =
        dropWhile isWhiteSpace (rev (dropWhile isWhiteSpace n))"
      by (intro dropWhile_append2) auto
    ultimately show ?thesis using front by (simp add: trim_def)
  qed
qed

lemma annotateConnection_samePayload:
  "samePayload a b \<Longrightarrow> annotateConnection a = annotateConnection b"
  by (rule ext) (simp add: samePayload_def annotateConnection_def)

lemma mergeInstance_samePayload:
  assumes "\<forall>k. rel_option samePayload (M k) (M' k)"
  shows "mergeInstance M inst = mergeInstance M' inst"
proof (cases "cell_instance.name inst")
  case None
  then show ?thesis by (simp add: mergeInstance_def)
next
  case (Some nm)
  from assms have rel: "rel_option samePayload (M (trim nm)) (M' (trim nm))" by blast
  show ?thesis
  proof (cases "M (trim nm)")
    case None
    with rel have "M' (trim nm) = None" by (cases "M' (trim nm)") simp_all
    with None Some show ?thesis by (simp add: mergeInstance_def)
  next
    case a: (Some a)
    with rel obtain b where b: "M' (trim nm) = Some b" and ab: "samePayload a b"
      by (cases "M' (trim nm)") simp_all
    from ab have "cellType a = cellType b" "timing_record.delays a = timing_record.delays b"
      "timing_record.timingChecks a = timing_record.timingChecks b"
      by (simp_all add: samePayload_def)
    with Some a b show ?thesis
      by (simp add: mergeInstance_def annotateConnection_samePayload [OF ab]
          cong: option.case_cong)
  qed
qed

lemma foldl_addInstance_samePayload:
  assumes "list_all2 (\<lambda>x y. normalizedName x = normalizedName y \<and> rel_option samePayload x y) xs ys"
    and "\<forall>k. rel_option samePayload (m k) (m' k)"
  shows "\<forall>k. rel_option samePayload (foldl addInstance m xs k) (foldl addInstance m' ys k)"
  using assms
proof (induction xs ys arbitrary: m m' rule: list_all2_induct)
  case Nil
  then show ?case by simp
next
  case (Cons x xs y ys)
  have "\<forall>k. rel_option samePayload (addInstance m x k) (addInstance m' y k)"
  proof (cases "normalizedName x")
    case None
    with Cons.hyps(1) have "addInstance m x = m" "addInstance m' y = m'"
      by (simp_all add: addInstance_normalizedName del: addInstance.simps)
    with Cons.prems show ?thesis by simp
  next
    case (Some k')
    with Cons.hyps(1) have add: "addInstance m x = m(k' \<mapsto> the x)"
      "addInstance m' y = m'(k' \<mapsto> the y)"
      by (simp_all add: addInstance_normalizedName del: addInstance.simps)
    from Some Cons.hyps(1) have "normalizedName y = Some k'"
      by simp
    with Some obtain a b where "x = Some a" "y = Some b"
      by (cases x; cases y) (simp_all add: normalizedName_def)
    with Cons.hyps(1) have "samePayload (the x) (the y)"
      by simp
    with Cons.prems show ?thesis
      unfolding add by simp
  qed
  from Cons.IH [OF this] show ?case by simp
qed

section \<open>The sample designs, evaluated\<close>

lemmas ex_defs =
  ex_netlist_def ex_timing_def ex_dff_def ex_lut_def ex_route1_def ex_route2_def
  ex_route3_def ex_adder_def ex_ghost_def ex_anonymous_def ex_unnamed_def ex_cell_def
  ex_conn_def ex_record_def ex_route_conns_def ex_dff_record_def ex_lut_record_def
  ex_route1_record_def ex_route2_record_def ex_route3_record_def ex_adder_record_def
  ex_anonymous_record_def ex_unnamed_record_def ex_checks_def ex_clash1_def ex_clash2_def
  ex_clash1_record_def ex_clash2_record_def ex_clash_netlist_def ex_clash_timing_def

lemmas merge_defs =
  mergeJsonForD3_def mergeEntry_def mergeModule_def mergeInstance_def
  annotateConnection_def sdfInstancesMap_def trim_def isWhiteSpace_def

lemma ex_merge:
  "mergeJsonForD3 ex_netlist ex_timing =
     Inr \<lparr>modules =
        [(''top'',
          \<lparr>ports = [JStr ''clk''],
           instances =
             Some [ex_dff\<lparr>cell_instance.delays := Some (JObj [(''value'', JNum 3)]),
                          cell_instance.timingChecks := Some ex_checks\<rparr>,
                   ex_lut\<lparr>cell_instance.delays := Some (JArr [JObj [(''delay'', JNum 4)]])\<rparr>,
                   ex_route1\<lparr>connections :=
                     Some (map (\<lambda>c. c\<lparr>delay := Some (JNum 5)\<rparr>) ex_route_conns)\<rparr>,
                   ex_route2\<lparr>connections :=
                     Some (map (\<lambda>c. c\<lparr>delay := Some (JNum 7)\<rparr>) ex_route_conns)\<rparr>,
                   ex_route3, ex_adder, ex_ghost, ex_anonymous, ex_unnamed]\<rparr>)]\<rparr>"
  by (simp add: merge_defs ex_defs)

lemma ex_at:
  "instanceAt ex_netlist 0 0 = Some ex_dff"
  "instanceAt ex_netlist 0 1 = Some ex_lut"
  "instanceAt ex_netlist 0 2 = Some ex_route1"
  "instanceAt ex_netlist 0 3 = Some ex_route2"
  "instanceAt ex_netlist 0 4 = Some ex_route3"
  "instanceAt ex_netlist 0 5 = Some ex_adder"
  "instanceAt ex_netlist 0 6 = Some ex_ghost"
  "instanceAt ex_netlist 0 7 = Some ex_anonymous"
  "instanceAt ex_netlist 0 8 = Some ex_unnamed"
  by (simp_all add: instanceAt_def ex_netlist_def)

lemma ex_lookup:
  "sdfInstancesMap ex_timing (trim ''dff_1'') = Some ex_dff_record"
  "sdfInstancesMap ex_timing (trim '' lut_1'') = Some ex_lut_record"
  "sdfInstancesMap ex_timing (trim ''route_1'') = Some ex_route1_record"
  "sdfInstancesMap ex_timing (trim ''route_2'') = Some ex_route2_record"
  "sdfInstancesMap ex_timing (trim ''route_3'') = Some ex_route3_record"
  "sdfInstancesMap ex_timing (trim ''add_1'') = Some ex_adder_record"
  "sdfInstancesMap ex_timing (trim ''ghost_1'') = None"
  by (simp_all add: sdfInstancesMap_def ex_timing_def trim_def isWhiteSpace_def
      ex_dff_record_def ex_lut_record_def ex_route1_record_def ex_route2_record_def
      ex_route3_record_def ex_adder_record_def ex_anonymous_record_def
      ex_unnamed_record_def ex_record_def)

lemma ex_clash_merge: "mergeJsonForD3 ex_clash_netlist ex_clash_timing = Inr ex_clash_merged"
  by (simp add: merge_defs ex_defs ex_clash_merged_def)

lemma ex_clash_lookup:
  "sdfInstancesMap ex_clash_timing (trim ''route_8'') = Some ex_clash1_record"
  "sdfInstancesMap ex_clash_timing (trim ''route_9'') = Some ex_clash2_record"
  by (simp_all add: sdfInstancesMap_def ex_clash_timing_def trim_def isWhiteSpace_def
      ex_clash1_record_def ex_clash2_record_def ex_record_def)

lemma ex_twice_keys:
  "normalizedName (Some ex_early_record) = Some ''dff_1''"
  "normalizedName (Some ex_late_record) = Some ''dff_1''"
  "\<forall>x \<in> set [None]. normalizedName x \<noteq> Some ''dff_1''"
  by (simp_all add: normalizedName_def ex_early_record_def ex_late_record_def ex_record_def
      trim_def isWhiteSpace_def)

lemma ex_twice_merge:
  "mergeJsonForD3 ex_twice_netlist
      \<lparr>timing_model.instances = Some ([] @ [Some ex_lut_record] @ Some ex_late_record # [None])\<rparr> =
    Inr \<lparr>modules =
      [(''top'',
        \<lparr>ports = [],
         instances = Some [ex_dff\<lparr>cell_instance.delays := Some (JNum 2),
                                  cell_instance.timingChecks := Some ex_checks\<rparr>]\<rparr>)]\<rparr>"
  by (simp add: merge_defs ex_twice_netlist_def ex_late_record_def ex_lut_record_def
      ex_record_def ex_dff_def ex_cell_def ex_conn_def)

lemma ex_single_merge:
  "mergeJsonForD3 ex_twice_netlist (ex_single_timing ''dff_1'') =
     Inr \<lparr>modules =
       [(''top'',
         \<lparr>ports = [],
          instances = Some [ex_dff\<lparr>cell_instance.delays := Some (JNum 1),
                                   cell_instance.timingChecks := Some ex_checks\<rparr>]\<rparr>)]\<rparr>"
  "mergeJsonForD3 ex_twice_netlist (ex_single_timing ''DFF_1'') = Inr ex_twice_netlist"
  by (simp_all add: merge_defs ex_twice_netlist_def ex_single_timing_def
      ex_record_def ex_dff_def ex_cell_def ex_conn_def)

section \<open>The merge policy, case by case\<close>

text \<open>
  In the theorems of this section an instance is matched when line 27 finds a record for
  it: its \<^verbatim>\<open>name\<close> is present and not empty, and the trimmed name is a key of the lookup.
  Instances without a name are the matter of C10.
\<close>

text \<open>
  C3. An instance whose normalised name finds a timing record of cell type \<^verbatim>\<open>DFF\<close> gets
  exactly that record's \<^verbatim>\<open>delays\<close> and \<^verbatim>\<open>timingChecks\<close>, and nothing else of it
  changes, whatever its own type: its step returns the instance with these two properties
  set to the record's values, and that instance stands at the same place in the merged
  netlist.
\<close>

theorem sequential_cell_attachment:
  assumes "instanceAt v i j = Some inst"
    and "cell_instance.name inst = Some nm" and "nm \<noteq> []"
    and "sdfInstancesMap s (trim nm) = Some sdfInstance"
    and "cellType sdfInstance = ''DFF''"
  shows "mergeInstance (sdfInstancesMap s) inst =
           Inr (inst\<lparr>cell_instance.delays := timing_record.delays sdfInstance,
                     cell_instance.timingChecks := timing_record.timingChecks sdfInstance\<rparr>) \<and>
         (\<forall>r. mergeJsonForD3 v s = Inr r \<longrightarrow>
              instanceAt r i j =
                Some (inst\<lparr>cell_instance.delays := timing_record.delays sdfInstance,
                           cell_instance.timingChecks := timing_record.timingChecks sdfInstance\<rparr>))"
proof -
  from assms(2-5) have step: "mergeInstance (sdfInstancesMap s) inst =
      Inr (inst\<lparr>cell_instance.delays := timing_record.delays sdfInstance,
                cell_instance.timingChecks := timing_record.timingChecks sdfInstance\<rparr>)"
    by (simp add: mergeInstance_def)
  with merge_at_step [OF assms(1) step] show ?thesis by blast
qed

theorem sequential_cell_attachment_witness:
  "instanceAt ex_netlist 0 0 = Some ex_dff \<and>
   (\<exists>r. mergeJsonForD3 ex_netlist ex_timing = Inr r \<and>
        instanceAt r 0 0 =
          Some (ex_dff\<lparr>cell_instance.delays := Some (JObj [(''value'', JNum 3)]),
                       cell_instance.timingChecks := Some ex_checks\<rparr>))"
proof -
  have nm: "cell_instance.name ex_dff = Some ''dff_1''" "''dff_1'' \<noteq> []"
    by (simp_all add: ex_dff_def ex_cell_def)
  have ct: "cellType ex_dff_record = ''DFF''"
    by (simp add: ex_dff_record_def ex_record_def)
  from sequential_cell_attachment [OF ex_at(1) nm ex_lookup(1) ct] ex_merge ex_at(1)
  show ?thesis
    by (simp add: ex_dff_record_def ex_record_def)
qed

text \<open>
  C4. An instance whose normalised name finds a timing record of cell type \<^verbatim>\<open>LUT_K\<close>
  gets that record's \<^verbatim>\<open>delays\<close> only, whatever its own type: its \<^verbatim>\<open>timingChecks\<close> stay
  what they were in the netlist (absent when they were absent), whatever timing checks
  the record carries.
\<close>

theorem lookup_cell_attachment:
  assumes "instanceAt v i j = Some inst"
    and "cell_instance.name inst = Some nm" and "nm \<noteq> []"
    and "sdfInstancesMap s (trim nm) = Some sdfInstance"
    and "cellType sdfInstance = ''LUT_K''"
  shows "mergeInstance (sdfInstancesMap s) inst =
           Inr (inst\<lparr>cell_instance.delays := timing_record.delays sdfInstance\<rparr>) \<and>
         cell_instance.timingChecks
           (inst\<lparr>cell_instance.delays := timing_record.delays sdfInstance\<rparr>) =
           cell_instance.timingChecks inst \<and>
         (\<forall>r. mergeJsonForD3 v s = Inr r \<longrightarrow>
              instanceAt r i j =
                Some (inst\<lparr>cell_instance.delays := timing_record.delays sdfInstance\<rparr>))"
proof -
  from assms(2-5) have step: "mergeInstance (sdfInstancesMap s) inst =
      Inr (inst\<lparr>cell_instance.delays := timing_record.delays sdfInstance\<rparr>)"
    by (simp add: mergeInstance_def)
  with merge_at_step [OF assms(1) step] show ?thesis by simp
qed

theorem lookup_cell_attachment_witness:
  "timing_record.timingChecks ex_lut_record = Some ex_checks \<and>
   (\<exists>r inst'. mergeJsonForD3 ex_netlist ex_timing = Inr r \<and>
        instanceAt r 0 1 = Some inst' \<and>
        cell_instance.delays inst' = Some (JArr [JObj [(''delay'', JNum 4)]]) \<and>
        cell_instance.timingChecks inst' = None)"
proof -
  have nm: "cell_instance.name ex_lut = Some '' lut_1''" "'' lut_1'' \<noteq> []"
    by (simp_all add: ex_lut_def ex_cell_def)
  have ct: "cellType ex_lut_record = ''LUT_K''"
    by (simp add: ex_lut_record_def ex_record_def)
  from lookup_cell_attachment [OF ex_at(2) nm ex_lookup(2) ct] ex_merge
  show ?thesis
    by (simp add: ex_lut_record_def ex_record_def ex_lut_def ex_cell_def)
qed

text \<open>
  C5. A matched instance whose record is neither of cell type \<^verbatim>\<open>DFF\<close> nor \<^verbatim>\<open>LUT_K\<close>
  and whose own type is not \<^verbatim>\<open>fpga_interconnect\<close> is left exactly as it was: its step
  returns it unchanged and raises nothing, it stands unchanged in the merged netlist, and
  when the merge does throw, it throws at another instance.
\<close>

theorem other_cell_type_skipped:
  assumes "instanceAt v i j = Some inst"
    and "cell_instance.name inst = Some nm" and "nm \<noteq> []"
    and "sdfInstancesMap s (trim nm) = Some sdfInstance"
    and "cellType sdfInstance \<noteq> ''DFF''" and "cellType sdfInstance \<noteq> ''LUT_K''"
    and "type inst \<noteq> ''fpga_interconnect''"
  shows "mergeInstance (sdfInstancesMap s) inst = Inr inst \<and>
         (\<forall>r. mergeJsonForD3 v s = Inr r \<longrightarrow> instanceAt r i j = Some inst) \<and>
         (\<forall>e. mergeJsonForD3 v s = Inl e \<longrightarrow>
              (\<exists>i' j' other. (i', j') \<noteq> (i, j) \<and> instanceAt v i' j' = Some other \<and>
                   mergeInstance (sdfInstancesMap s) other = Inl e))"
proof -
  from assms(2-7) have step: "mergeInstance (sdfInstancesMap s) inst = Inr inst"
    by (simp add: mergeInstance_def)
  with merge_at_step [OF assms(1) step] show ?thesis by blast
qed

theorem other_cell_type_skipped_witness:
  "unannotated ex_adder \<and>
   (\<exists>r. mergeJsonForD3 ex_netlist ex_timing = Inr r \<and> instanceAt r 0 5 = Some ex_adder)"
proof -
  have nm: "cell_instance.name ex_adder = Some ''add_1''" "''add_1'' \<noteq> []"
    by (simp_all add: ex_adder_def ex_cell_def)
  have ct: "cellType ex_adder_record \<noteq> ''DFF''" "cellType ex_adder_record \<noteq> ''LUT_K''"
    by (simp_all add: ex_adder_record_def ex_record_def)
  have ty: "type ex_adder \<noteq> ''fpga_interconnect''"
    by (simp add: ex_adder_def ex_cell_def)
  have "unannotated ex_adder"
    by (simp add: unannotated_def ex_adder_def ex_cell_def ex_conn_def)
  with other_cell_type_skipped [OF ex_at(6) nm ex_lookup(6) ct ty] ex_merge
  show ?thesis by simp
qed

text \<open>
  C6. An instance whose normalised name is not a key of the lookup is left exactly as it
  was, so an instance without annotation stays without: its step returns it unchanged
  and raises nothing, it stands unchanged in the merged netlist, and when the merge does
  throw, it throws at another instance.
\<close>

theorem unmatched_instance_untouched:
  assumes "instanceAt v i j = Some inst"
    and "cell_instance.name inst = Some nm"
    and "sdfInstancesMap s (trim nm) = None"
  shows "mergeInstance (sdfInstancesMap s) inst = Inr inst \<and>
         (\<forall>r. mergeJsonForD3 v s = Inr r \<longrightarrow>
              instanceAt r i j = Some inst \<and>
              (unannotated inst \<longrightarrow>
                 (\<exists>inst'. instanceAt r i j = Some inst' \<and> unannotated inst'))) \<and>
         (\<forall>e. mergeJsonForD3 v s = Inl e \<longrightarrow>
              (\<exists>i' j' other. (i', j') \<noteq> (i, j) \<and> instanceAt v i' j' = Some other \<and>
                   mergeInstance (sdfInstancesMap s) other = Inl e))"
proof -
  from assms(2,3) have step: "mergeInstance (sdfInstancesMap s) inst = Inr inst"
    by (simp add: mergeInstance_def)
  with merge_at_step [OF assms(1) step] show ?thesis by simp
qed

theorem unmatched_instance_untouched_witness:
  "unannotated ex_ghost \<and>
   (\<exists>r. mergeJsonForD3 ex_netlist ex_timing = Inr r \<and> instanceAt r 0 6 = Some ex_ghost)"
proof -
  have nm: "cell_instance.name ex_ghost = Some ''ghost_1''"
    by (simp add: ex_ghost_def ex_cell_def)
  have "unannotated ex_ghost"
    by (simp add: unannotated_def ex_ghost_def ex_cell_def ex_conn_def)
  with unmatched_instance_untouched [OF ex_at(7) nm ex_lookup(7)] ex_merge
  show ?thesis by simp
qed

text \<open>
  C1, as the code has it. The interconnect rule is the third branch of the dispatch: it is
  reached by an instance of type \<^verbatim>\<open>fpga_interconnect\<close> whose normalised name finds a
  timing record of a cell type other than \<^verbatim>\<open>DFF\<close> and \<^verbatim>\<open>LUT_K\<close>. Then no
  instance-level \<^verbatim>\<open>delays\<close> or \<^verbatim>\<open>timingChecks\<close> are attached, and the connections are
  the old ones, each passed through the loop body with the matched record; the step
  returns normally unless the record's \<^verbatim>\<open>delays\<close> is an array that starts with \<^verbatim>\<open>null\<close>.
\<close>

theorem interconnect_dispatch:
  assumes "instanceAt v i j = Some inst"
    and "cell_instance.name inst = Some nm" and "nm \<noteq> []"
    and "sdfInstancesMap s (trim nm) = Some sdfInstance"
    and "type inst = ''fpga_interconnect''"
    and "cellType sdfInstance \<noteq> ''DFF''" and "cellType sdfInstance \<noteq> ''LUT_K''"
  shows "(\<forall>inst'. mergeInstance (sdfInstancesMap s) inst = Inr inst' \<longrightarrow>
              connectionsAnnotated sdfInstance inst inst' \<and>
              cell_instance.delays inst' = cell_instance.delays inst \<and>
              cell_instance.timingChecks inst' = cell_instance.timingChecks inst) \<and>
         (\<forall>r. mergeJsonForD3 v s = Inr r \<longrightarrow>
              (\<exists>inst'. instanceAt r i j = Some inst' \<and>
                   connectionsAnnotated sdfInstance inst inst' \<and>
                   cell_instance.delays inst' = cell_instance.delays inst \<and>
                   cell_instance.timingChecks inst' = cell_instance.timingChecks inst)) \<and>
         ((\<forall>ds. timing_record.delays sdfInstance \<noteq> Some (JArr (JNull # ds))) \<longrightarrow>
              (\<exists>inst'. mergeInstance (sdfInstancesMap s) inst = Inr inst'))"
proof -
  have a: "connectionsAnnotated sdfInstance inst inst' \<and>
      cell_instance.delays inst' = cell_instance.delays inst \<and>
      cell_instance.timingChecks inst' = cell_instance.timingChecks inst"
    if "mergeInstance (sdfInstancesMap s) inst = Inr inst'" for inst'
  proof -
    from interconnect_step_annotated [where sdfMap = "sdfInstancesMap s", OF assms(2-7) that]
    have ca: "connectionsAnnotated sdfInstance inst inst'" .
    then obtain cs' where "inst' = inst\<lparr>connections := cs'\<rparr>"
      unfolding connectionsAnnotated_def by blast
    then have "cell_instance.delays inst' = cell_instance.delays inst"
      "cell_instance.timingChecks inst' = cell_instance.timingChecks inst"
      by simp_all
    with ca show ?thesis by simp
  qed
  have b: "\<exists>inst'. instanceAt r i j = Some inst' \<and>
      connectionsAnnotated sdfInstance inst inst' \<and>
      cell_instance.delays inst' = cell_instance.delays inst \<and>
      cell_instance.timingChecks inst' = cell_instance.timingChecks inst"
    if "mergeJsonForD3 v s = Inr r" for r
    using merge_instanceAt [OF that assms(1)] a by blast
  from a b interconnect_step_total [where sdfMap = "sdfInstancesMap s", OF assms(2-7)] show ?thesis by blast
qed

theorem interconnect_dispatch_witness:
  "\<exists>r inst'. mergeJsonForD3 ex_netlist ex_timing = Inr r \<and> instanceAt r 0 2 = Some inst' \<and>
      connectionsAnnotated ex_route1_record ex_route1 inst' \<and>
      cell_instance.delays inst' = None \<and> cell_instance.timingChecks inst' = None"
proof -
  have nm: "cell_instance.name ex_route1 = Some ''route_1''" "''route_1'' \<noteq> []"
    by (simp_all add: ex_route1_def ex_cell_def)
  have ty: "type ex_route1 = ''fpga_interconnect''"
    by (simp add: ex_route1_def ex_cell_def)
  have ct: "cellType ex_route1_record \<noteq> ''DFF''" "cellType ex_route1_record \<noteq> ''LUT_K''"
    by (simp_all add: ex_route1_record_def ex_record_def)
  have "cell_instance.delays ex_route1 = None" "cell_instance.timingChecks ex_route1 = None"
    by (simp_all add: ex_route1_def ex_cell_def)
  with interconnect_dispatch [OF ex_at(3) nm ex_lookup(3) ty ct] ex_merge
  show ?thesis by auto
qed

text \<open>
  C1 as stated fails: the record's cell type is looked at first. A routing instance whose
  record says \<^verbatim>\<open>DFF\<close> gets the record's \<^verbatim>\<open>delays\<close> and \<^verbatim>\<open>timingChecks\<close> on the
  instance itself, and its connections get no \<^verbatim>\<open>delay\<close>.
\<close>

theorem interconnect_dispatch_counterexample:
  "type ex_clash1 = ''fpga_interconnect'' \<and>
   cell_instance.name ex_clash1 = Some ''route_8'' \<and>
   sdfInstancesMap ex_clash_timing (trim ''route_8'') = Some ex_clash1_record \<and>
   mergeJsonForD3 ex_clash_netlist ex_clash_timing = Inr ex_clash_merged \<and>
   instanceAt ex_clash_merged 0 0 =
     Some (ex_clash1\<lparr>cell_instance.delays := Some (JNum 6),
                      cell_instance.timingChecks := Some ex_checks\<rparr>) \<and>
   connections ex_clash1 = Some ex_route_conns \<and>
   map delay ex_route_conns = [None, None, None]"
  using ex_clash_merge ex_clash_lookup(1)
  by (simp add: ex_clash1_def ex_cell_def ex_clash_merged_def instanceAt_def
      ex_route_conns_def ex_conn_def)

text \<open>
  C2, as the code has it. For an instance that reaches the interconnect rule (type
  \<^verbatim>\<open>fpga_interconnect\<close>, matched record of a cell type other than \<^verbatim>\<open>DFF\<close> and
  \<^verbatim>\<open>LUT_K\<close>): when the record's \<^verbatim>\<open>delays\<close> is an array with a first entry, every
  connection gets that entry's \<^verbatim>\<open>delay\<close>; when it is a number, every connection gets the
  number; when it is the empty array, the instance and its connections stay as they were.
\<close>

theorem interconnect_delay_fanout:
  assumes "instanceAt v i j = Some inst"
    and "cell_instance.name inst = Some nm" and "nm \<noteq> []"
    and "sdfInstancesMap s (trim nm) = Some sdfInstance"
    and "type inst = ''fpga_interconnect''"
    and "cellType sdfInstance \<noteq> ''DFF''" and "cellType sdfInstance \<noteq> ''LUT_K''"
    and "connections inst = Some cs"
  shows "(\<forall>d ds dv. timing_record.delays sdfInstance = Some (JArr (d # ds)) \<and> getDelay d = Inr dv \<longrightarrow>
            mergeInstance (sdfInstancesMap s) inst =
              Inr (inst\<lparr>connections := Some (map (\<lambda>c. c\<lparr>delay := dv\<rparr>) cs)\<rparr>) \<and>
            (\<forall>r. mergeJsonForD3 v s = Inr r \<longrightarrow>
                 instanceAt r i j =
                   Some (inst\<lparr>connections := Some (map (\<lambda>c. c\<lparr>delay := dv\<rparr>) cs)\<rparr>))) \<and>
         (\<forall>x. timing_record.delays sdfInstance = Some (JNum x) \<longrightarrow>
            mergeInstance (sdfInstancesMap s) inst =
              Inr (inst\<lparr>connections := Some (map (\<lambda>c. c\<lparr>delay := Some (JNum x)\<rparr>) cs)\<rparr>) \<and>
            (\<forall>r. mergeJsonForD3 v s = Inr r \<longrightarrow>
                 instanceAt r i j =
                   Some (inst\<lparr>connections := Some (map (\<lambda>c. c\<lparr>delay := Some (JNum x)\<rparr>) cs)\<rparr>))) \<and>
         (timing_record.delays sdfInstance = Some (JArr []) \<longrightarrow>
            mergeInstance (sdfInstancesMap s) inst = Inr inst \<and>
            (\<forall>r. mergeJsonForD3 v s = Inr r \<longrightarrow> instanceAt r i j = Some inst))"
proof -
  let ?M = "sdfInstancesMap s"
  note step = interconnect_step [where sdfMap = ?M, OF assms(2-7)]
  have lift: "\<forall>r. mergeJsonForD3 v s = Inr r \<longrightarrow> instanceAt r i j = Some inst'"
    if "mergeInstance ?M inst = Inr inst'" for inst'
    using merge_at_step [OF assms(1) that] by blast
  have a: "mergeInstance ?M inst = Inr (inst\<lparr>connections := Some (map (\<lambda>c. c\<lparr>delay := dv\<rparr>) cs)\<rparr>)"
    if "timing_record.delays sdfInstance = Some (JArr (d # ds))" "getDelay d = Inr dv" for d ds dv
  proof -
    have "forEach (annotateConnection sdfInstance) cs = Inr (map (\<lambda>c. c\<lparr>delay := dv\<rparr>) cs)"
      by (rule forEach_map) (rule annotateConnection_array [OF that])
    with step assms(8) show ?thesis by simp
  qed
  have b: "mergeInstance ?M inst =
      Inr (inst\<lparr>connections := Some (map (\<lambda>c. c\<lparr>delay := Some (JNum x)\<rparr>) cs)\<rparr>)"
    if "timing_record.delays sdfInstance = Some (JNum x)" for x
  proof -
    have "forEach (annotateConnection sdfInstance) cs =
        Inr (map (\<lambda>c. c\<lparr>delay := Some (JNum x)\<rparr>) cs)"
      by (rule forEach_map) (rule annotateConnection_number [OF that])
    with step assms(8) show ?thesis by simp
  qed
  have c: "mergeInstance ?M inst = Inr inst"
    if "timing_record.delays sdfInstance = Some (JArr [])"
  proof -
    have "forEach (annotateConnection sdfInstance) cs = Inr (map (\<lambda>c. c) cs)"
      by (rule forEach_map) (rule annotateConnection_empty [OF that])
    moreover from assms(8) have "inst\<lparr>connections := Some cs\<rparr> = inst" by simp
    ultimately show ?thesis using step assms(8) by simp
  qed
  from a b c lift show ?thesis by blast
qed

theorem interconnect_delay_fanout_witness:
  "\<exists>r. mergeJsonForD3 ex_netlist ex_timing = Inr r \<and>
      instanceAt r 0 2 =
        Some (ex_route1\<lparr>connections := Some (map (\<lambda>c. c\<lparr>delay := Some (JNum 5)\<rparr>) ex_route_conns)\<rparr>) \<and>
      instanceAt r 0 3 =
        Some (ex_route2\<lparr>connections := Some (map (\<lambda>c. c\<lparr>delay := Some (JNum 7)\<rparr>) ex_route_conns)\<rparr>) \<and>
      instanceAt r 0 4 = Some ex_route3"
proof -
  have nm: "cell_instance.name ex_route1 = Some ''route_1''" "''route_1'' \<noteq> []"
    "cell_instance.name ex_route2 = Some ''route_2''" "''route_2'' \<noteq> []"
    "cell_instance.name ex_route3 = Some ''route_3''" "''route_3'' \<noteq> []"
    by (simp_all add: ex_route1_def ex_route2_def ex_route3_def ex_cell_def)
  have ty: "type ex_route1 = ''fpga_interconnect''" "type ex_route2 = ''fpga_interconnect''"
    "type ex_route3 = ''fpga_interconnect''"
    by (simp_all add: ex_route1_def ex_route2_def ex_route3_def ex_cell_def)
  have ct: "cellType ex_route1_record \<noteq> ''DFF''" "cellType ex_route1_record \<noteq> ''LUT_K''"
    "cellType ex_route2_record \<noteq> ''DFF''" "cellType ex_route2_record \<noteq> ''LUT_K''"
    "cellType ex_route3_record \<noteq> ''DFF''" "cellType ex_route3_record \<noteq> ''LUT_K''"
    by (simp_all add: ex_route1_record_def ex_route2_record_def ex_route3_record_def ex_record_def)
  have cs: "connections ex_route1 = Some ex_route_conns"
    "connections ex_route2 = Some ex_route_conns" "connections ex_route3 = Some ex_route_conns"
    by (simp_all add: ex_route1_def ex_route2_def ex_route3_def ex_cell_def)
  have d: "timing_record.delays ex_route1_record =
        Some (JArr (JObj [(''delay'', JNum 5)] # [JObj [(''delay'', JNum 9)]]))"
    "getDelay (JObj [(''delay'', JNum 5)]) = Inr (Some (JNum (5::int)))"
    "timing_record.delays ex_route2_record = Some (JNum 7)"
    "timing_record.delays ex_route3_record = Some (JArr [])"
    by (simp_all add: ex_route1_record_def ex_route2_record_def ex_route3_record_def ex_record_def)
  obtain r where r: "mergeJsonForD3 ex_netlist ex_timing = Inr r"
    using ex_merge by blast
  from interconnect_delay_fanout [OF ex_at(3) nm(1,2) ex_lookup(3) ty(1) ct(1,2) cs(1)] d(1,2) r
  have "instanceAt r 0 2 =
      Some (ex_route1\<lparr>connections := Some (map (\<lambda>c. c\<lparr>delay := Some (JNum 5)\<rparr>) ex_route_conns)\<rparr>)"
    by blast
  moreover
  from interconnect_delay_fanout [OF ex_at(4) nm(3,4) ex_lookup(4) ty(2) ct(3,4) cs(2)] d(3) r
  have "instanceAt r 0 3 =
      Some (ex_route2\<lparr>connections := Some (map (\<lambda>c. c\<lparr>delay := Some (JNum 7)\<rparr>) ex_route_conns)\<rparr>)"
    by blast
  moreover
  from interconnect_delay_fanout [OF ex_at(5) nm(5,6) ex_lookup(5) ty(3) ct(5,6) cs(3)] d(4) r
  have "instanceAt r 0 4 = Some ex_route3"
    by blast
  ultimately show ?thesis using r by blast
qed

text \<open>
  C2 as stated fails for a matched routing instance whose record says \<^verbatim>\<open>LUT_K\<close>: the
  record's \<^verbatim>\<open>delays\<close> is an array with two entries, and no connection gets a
  \<^verbatim>\<open>delay\<close>; the array goes to the instance instead.
\<close>

theorem interconnect_delay_fanout_counterexample:
  "type ex_clash2 = ''fpga_interconnect'' \<and>
   cell_instance.name ex_clash2 = Some ''route_9'' \<and>
   sdfInstancesMap ex_clash_timing (trim ''route_9'') = Some ex_clash2_record \<and>
   timing_record.delays ex_clash2_record =
     Some (JArr [JObj [(''delay'', JNum 5)], JObj [(''delay'', JNum 9)]]) \<and>
   mergeJsonForD3 ex_clash_netlist ex_clash_timing = Inr ex_clash_merged \<and>
   instanceAt ex_clash_merged 0 1 =
     Some (ex_clash2\<lparr>cell_instance.delays :=
       Some (JArr [JObj [(''delay'', JNum 5)], JObj [(''delay'', JNum 9)]])\<rparr>) \<and>
   connections ex_clash2 = Some ex_route_conns \<and>
   map delay ex_route_conns = [None, None, None]"
  using ex_clash_merge ex_clash_lookup(2)
  by (simp add: ex_clash2_def ex_cell_def ex_clash_merged_def instanceAt_def
      ex_route_conns_def ex_conn_def ex_clash2_record_def ex_record_def)

section \<open>Correlation by name\<close>

text \<open>
  C7, as the code has it. For a non-empty name \<open>n\<close>, white space before and after it does
  not matter: a timing record named \<open>ws1 @ n @ ws2\<close> gets the key of the record named
  \<open>n\<close>, and the merge with the one record is the merge with the other, whatever the
  netlist and the rest of the timing file. Beyond that the match is exact: a key is found
  in the lookup exactly when an entry of the timing file has that very string as its
  normalised name.
\<close>

theorem name_normalization:
  assumes "n \<noteq> []"
    and "\<forall>c \<in> set ws1. isWhiteSpace c" and "\<forall>c \<in> set ws2. isWhiteSpace c"
  shows "normalizedName (Some (r\<lparr>instanceName := Some (ws1 @ n @ ws2)\<rparr>)) =
           normalizedName (Some (r\<lparr>instanceName := Some n\<rparr>)) \<and>
         mergeJsonForD3 v
           \<lparr>timing_model.instances =
              Some (pre @ Some (r\<lparr>instanceName := Some (ws1 @ n @ ws2)\<rparr>) # post)\<rparr> =
         mergeJsonForD3 v
           \<lparr>timing_model.instances = Some (pre @ Some (r\<lparr>instanceName := Some n\<rparr>) # post)\<rparr> \<and>
         ((\<exists>x. sdfInstancesMap sd k = Some x) \<longleftrightarrow>
          (\<exists>xs x. timing_model.instances sd = Some xs \<and> x \<in> set xs \<and>
               normalizedName x = Some k))"
proof -
  let ?padded = "r\<lparr>instanceName := Some (ws1 @ n @ ws2)\<rparr>"
  let ?exact = "r\<lparr>instanceName := Some n\<rparr>"
  let ?R = "\<lambda>x y. normalizedName x = normalizedName y \<and> rel_option samePayload x y"
  from assms have key: "normalizedName (Some ?padded) = normalizedName (Some ?exact)"
    by (simp add: normalizedName_def trim_padded)
  have refl: "list_all2 ?R xs xs" for xs :: "'a timing_record option list"
    by (rule list_all2_refl) (simp add: option.rel_refl samePayload_def)
  have "?R (Some ?padded) (Some ?exact)"
    using key by (simp add: samePayload_def)
  with refl have "list_all2 ?R (pre @ Some ?padded # post) (pre @ Some ?exact # post)"
    by (simp add: list_all2_appendI)
  from foldl_addInstance_samePayload [OF this, of Map.empty Map.empty]
  have "\<forall>k. rel_option samePayload
      (sdfInstancesMap \<lparr>timing_model.instances = Some (pre @ Some ?padded # post)\<rparr> k)
      (sdfInstancesMap \<lparr>timing_model.instances = Some (pre @ Some ?exact # post)\<rparr> k)"
    by (simp add: sdfInstancesMap_def del: addInstance.simps)
  then have "mergeInstance (sdfInstancesMap \<lparr>timing_model.instances = Some (pre @ Some ?padded # post)\<rparr>) =
      mergeInstance (sdfInstancesMap \<lparr>timing_model.instances = Some (pre @ Some ?exact # post)\<rparr>)"
    by (intro ext mergeInstance_samePayload)
  then have "mergeModule (sdfInstancesMap \<lparr>timing_model.instances = Some (pre @ Some ?padded # post)\<rparr>) =
      mergeModule (sdfInstancesMap \<lparr>timing_model.instances = Some (pre @ Some ?exact # post)\<rparr>)"
    by (intro ext) (simp only: mergeModule_def)
  then have "mergeEntry (sdfInstancesMap \<lparr>timing_model.instances = Some (pre @ Some ?padded # post)\<rparr>) =
      mergeEntry (sdfInstancesMap \<lparr>timing_model.instances = Some (pre @ Some ?exact # post)\<rparr>)"
    by (intro ext) (simp only: mergeEntry_def)
  then have "mergeJsonForD3 v \<lparr>timing_model.instances = Some (pre @ Some ?padded # post)\<rparr> =
      mergeJsonForD3 v \<lparr>timing_model.instances = Some (pre @ Some ?exact # post)\<rparr>"
    by (simp only: mergeJsonForD3_def Let_def)
  with key sdfInstancesMap_matches [of sd k] show ?thesis by blast
qed

theorem name_normalization_witness:
  "mergeJsonForD3 ex_twice_netlist (ex_single_timing ('' '' @ ''dff_1'' @ ''  '')) =
     mergeJsonForD3 ex_twice_netlist (ex_single_timing ''dff_1'') \<and>
   mergeJsonForD3 ex_twice_netlist (ex_single_timing ''dff_1'') =
     Inr \<lparr>modules =
       [(''top'',
         \<lparr>ports = [],
          instances = Some [ex_dff\<lparr>cell_instance.delays := Some (JNum 1),
                                   cell_instance.timingChecks := Some ex_checks\<rparr>]\<rparr>)]\<rparr> \<and>
   mergeJsonForD3 ex_twice_netlist (ex_single_timing ''DFF_1'') = Inr ex_twice_netlist"
proof -
  have n: "''dff_1'' \<noteq> []" by simp
  have ws: "\<forall>c \<in> set '' ''. isWhiteSpace c" "\<forall>c \<in> set ''  ''. isWhiteSpace c"
    by (simp_all add: isWhiteSpace_def)
  from name_normalization [OF n ws,
      of "ex_record (Some []) ''DFF'' (Some (JNum 1))" ex_twice_netlist "[]" "[]",
      THEN conjunct2, THEN conjunct1]
  have "mergeJsonForD3 ex_twice_netlist (ex_single_timing ('' '' @ ''dff_1'' @ ''  '')) =
     mergeJsonForD3 ex_twice_netlist (ex_single_timing ''dff_1'')"
    by (simp add: ex_single_timing_def ex_record_def)
  with ex_single_merge show ?thesis by simp
qed

text \<open>
  C7 as stated fails at the empty name: the record named by the empty string is dropped
  before its name is trimmed, the record named by four spaces is not, and an instance
  named by a space finds it.
\<close>

theorem name_normalization_counterexample:
  "list_all isWhiteSpace ''  '' \<and>
   mergeJsonForD3 ex_blank_netlist (ex_single_timing (''  '' @ [] @ ''  '')) =
     Inr \<lparr>modules =
       [(''top'',
         \<lparr>ports = [],
          instances = Some [ex_blank\<lparr>cell_instance.delays := Some (JNum 1),
                                     cell_instance.timingChecks := Some ex_checks\<rparr>]\<rparr>)]\<rparr> \<and>
   mergeJsonForD3 ex_blank_netlist (ex_single_timing []) = Inr ex_blank_netlist \<and>
   mergeJsonForD3 ex_blank_netlist (ex_single_timing (''  '' @ [] @ ''  '')) \<noteq>
     mergeJsonForD3 ex_blank_netlist (ex_single_timing [])"
  by (simp add: merge_defs ex_blank_netlist_def ex_single_timing_def ex_blank_def
      ex_record_def ex_cell_def ex_conn_def)

text \<open>
  C8. The normalised name of a record is the key lines 9 to 12 enter it under; a record
  without a name has none. When two entries of the timing file have the same normalised
  name and no later entry has it, the lookup holds the later of the two under that name;
  the earlier one has no effect, on the lookup or on the merge of any netlist; and an
  instance of that name is merged as if the timing file held the later record alone.
\<close>

theorem last_record_wins:
  assumes "normalizedName (Some a) = Some k" and "normalizedName (Some b) = Some k"
    and "\<forall>x \<in> set post. normalizedName x \<noteq> Some k"
  shows "sdfInstancesMap \<lparr>timing_model.instances = Some (pre @ Some a # mid @ Some b # post)\<rparr> k = Some b \<and>
         sdfInstancesMap \<lparr>timing_model.instances = Some (pre @ Some a # mid @ Some b # post)\<rparr> =
           sdfInstancesMap \<lparr>timing_model.instances = Some (pre @ mid @ Some b # post)\<rparr> \<and>
         mergeJsonForD3 v \<lparr>timing_model.instances = Some (pre @ Some a # mid @ Some b # post)\<rparr> =
           mergeJsonForD3 v \<lparr>timing_model.instances = Some (pre @ mid @ Some b # post)\<rparr> \<and>
         (\<forall>inst nm. cell_instance.name inst = Some nm \<and> trim nm = k \<longrightarrow>
            mergeInstance
              (sdfInstancesMap \<lparr>timing_model.instances = Some (pre @ Some a # mid @ Some b # post)\<rparr>)
              inst =
            mergeInstance [k \<mapsto> b] inst)"
proof -
  let ?with = "\<lparr>timing_model.instances = Some (pre @ Some a # mid @ Some b # post)\<rparr>"
  let ?without = "\<lparr>timing_model.instances = Some (pre @ mid @ Some b # post)\<rparr>"
  let ?m = "foldl addInstance Map.empty pre"
  have b: "sdfInstancesMap ?with k = Some b"
    using assms(2,3)
    by (simp add: sdfInstancesMap_def foldl_addInstance_absent addInstance_normalizedName
        del: addInstance.simps)
  have "foldl addInstance (?m(k \<mapsto> a)) (mid @ Some b # post) =
      foldl addInstance ?m (mid @ Some b # post)"
    using assms(2) by (intro foldl_addInstance_upd) auto
  with assms(1) have eq: "sdfInstancesMap ?with = sdfInstancesMap ?without"
    by (simp add: sdfInstancesMap_def addInstance_normalizedName del: addInstance.simps)
  then have "mergeJsonForD3 v ?with = mergeJsonForD3 v ?without"
    by (simp add: mergeJsonForD3_def)
  moreover have "mergeInstance (sdfInstancesMap ?with) inst = mergeInstance [k \<mapsto> b] inst"
    if "cell_instance.name inst = Some nm" "trim nm = k" for inst nm
    using that b by (intro mergeInstance_key [of inst nm]) simp_all
  ultimately show ?thesis using b eq by blast
qed

theorem last_record_wins_witness:
  "timing_record.delays ex_early_record = Some (JNum 1) \<and>
   timing_record.delays ex_late_record = Some (JNum 2) \<and>
   sdfInstancesMap ex_twice_timing ''dff_1'' = Some ex_late_record \<and>
   mergeJsonForD3 ex_twice_netlist ex_twice_timing =
     Inr \<lparr>modules =
       [(''top'',
         \<lparr>ports = [],
          instances = Some [ex_dff\<lparr>cell_instance.delays := Some (JNum 2),
                                   cell_instance.timingChecks := Some ex_checks\<rparr>]\<rparr>)]\<rparr>"
  using last_record_wins [OF ex_twice_keys, of "[]" "[Some ex_lut_record]" ex_twice_netlist]
    ex_twice_merge
  by (simp add: ex_twice_timing_def ex_early_record_def ex_late_record_def ex_lut_record_def
      ex_record_def sdfInstancesMap_def trim_def isWhiteSpace_def)

section \<open>Entities without a name\<close>

text \<open>
  C10. A timing record whose \<^verbatim>\<open>instanceName\<close> is missing or empty never enters the
  lookup: adding it changes no map, the lookup of a timing model is the same with and
  without it, and it is never the value of a key. A netlist instance whose \<^verbatim>\<open>name\<close> is
  missing or empty is skipped: its step returns it unchanged and raises nothing, it stands
  unchanged in the merged netlist, and when the merge does throw, it throws at another
  instance.
\<close>

theorem nameless_entities_excluded:
  assumes "instanceName sdfInstance = None \<or> instanceName sdfInstance = Some []"
    and "instanceAt v i j = Some inst"
    and "cell_instance.name inst = None \<or> cell_instance.name inst = Some []"
  shows "addInstance m (Some sdfInstance) = m \<and>
         sdfInstancesMap \<lparr>timing_model.instances = Some (pre @ Some sdfInstance # post)\<rparr> =
           sdfInstancesMap \<lparr>timing_model.instances = Some (pre @ post)\<rparr> \<and>
         sdfInstancesMap s k \<noteq> Some sdfInstance \<and>
         mergeInstance (sdfInstancesMap s) inst = Inr inst \<and>
         (\<forall>r. mergeJsonForD3 v s = Inr r \<longrightarrow> instanceAt r i j = Some inst) \<and>
         (\<forall>e. mergeJsonForD3 v s = Inl e \<longrightarrow>
              (\<exists>i' j' other. (i', j') \<noteq> (i, j) \<and> instanceAt v i' j' = Some other \<and>
                   mergeInstance (sdfInstancesMap s) other = Inl e))"
proof -
  from assms(1) have add: "addInstance m (Some sdfInstance) = m" for m
    by auto
  then have "sdfInstancesMap \<lparr>timing_model.instances = Some (pre @ Some sdfInstance # post)\<rparr> =
      sdfInstancesMap \<lparr>timing_model.instances = Some (pre @ post)\<rparr>"
    by (simp add: sdfInstancesMap_def)
  moreover from assms(1) sdfInstancesMap_names [of s k sdfInstance]
  have "sdfInstancesMap s k \<noteq> Some sdfInstance"
    by auto
  moreover from assms(3) have step: "mergeInstance (sdfInstancesMap s) inst = Inr inst"
    by (auto simp: mergeInstance_def)
  moreover note merge_at_step [OF assms(2) step] add
  ultimately show ?thesis by blast
qed

theorem nameless_entities_excluded_witness:
  "sdfInstancesMap ex_timing [] \<noteq> Some ex_unnamed_record \<and>
   (\<exists>r. mergeJsonForD3 ex_netlist ex_timing = Inr r \<and> instanceAt r 0 8 = Some ex_unnamed)"
proof -
  have rec: "instanceName ex_unnamed_record = None \<or> instanceName ex_unnamed_record = Some []"
    by (simp add: ex_unnamed_record_def ex_record_def)
  have nm: "cell_instance.name ex_unnamed = None \<or> cell_instance.name ex_unnamed = Some []"
    by (simp add: ex_unnamed_def ex_cell_def)
  from nameless_entities_excluded [OF rec ex_at(9) nm, where s = ex_timing and k = "[]"] ex_merge
  show ?thesis by simp
qed

section \<open>Stores: what a write can change\<close>








section \<open>The loops keep what was there\<close>







section \<open>The clone is new\<close>







section \<open>The merge and its arguments\<close>






end
